theory Spec2Isabelle
  imports Main "HOL-Library.AList"
begin

section \<open>Python values and exceptions\<close>

text \<open>
  The values that travel through the dialog: field names, defaults and results are
  strings, booleans or \<open>None\<close>. An exception is a value of type \<open>error\<close>; a function
  that may raise returns \<open>error + 'a\<close>, with \<open>Inl\<close> for the exception.
\<close>

datatype pyval = PNone | PBool bool | PStr string

datatype error = KeyError | TypeError | TclError | ValueError

text \<open>Python's truth test, as used by \<open>if x.get("name")\<close> and \<open>a and b or c\<close>.\<close>

definition truthy :: "pyval \<Rightarrow> bool" where
  "truthy v = (case v of PNone \<Rightarrow> False | PBool b \<Rightarrow> b | PStr s \<Rightarrow> s \<noteq> [])"

section \<open>The toolkit\<close>

text \<open>
  Tk itself is not part of the program. What the program asks of it is collected in a
  record: the theme names the style registry knows (\<open>Style().theme_names()\<close>), the theme
  in use (the one piece of toolkit state the constructor may change), and the two
  conversions Tcl applies when a cell receives a value of the other type: the text a
  string cell reads back for a value that is not a \<open>str\<close>, and Tcl's reading of a
  non-empty string as a boolean (\<open>None\<close> when Tcl rejects it).
\<close>

record toolkit =
  theme_names :: "string list"
  theme_in_use :: string
  tcl_string :: "pyval \<Rightarrow> string"
  tcl_getboolean :: "string \<Rightarrow> bool option"

text \<open>
  \<open>tk.getboolean(value)\<close>: a \<open>bool\<close> is returned as it is, a string goes through Tcl's
  boolean parser, which raises \<open>TclError\<close> on a string it cannot read (the empty string is
  never a Tcl boolean), and \<open>None\<close> is rejected with \<open>TypeError\<close>.
\<close>

definition getboolean :: "toolkit \<Rightarrow> pyval \<Rightarrow> error + bool" where
  "getboolean tk v =
     (case v of
        PBool b \<Rightarrow> Inr b
      | PStr s \<Rightarrow>
          (if s = [] then Inl TclError
           else case tcl_getboolean tk s of None \<Rightarrow> Inl TclError | Some b \<Rightarrow> Inr b)
      | PNone \<Rightarrow> Inl TypeError)"

text \<open>
  tkinter's variable classes. A variable is its class and the value its Tcl variable
  holds. A fresh \<open>StringVar()\<close> holds the empty string and a fresh \<open>BooleanVar()\<close> holds
  \<open>False\<close>. \<open>StringVar.set\<close> stores the value as given and \<open>StringVar.get\<close> always returns
  a \<open>str\<close>; \<open>BooleanVar.set\<close> stores \<open>getboolean(value)\<close>, so it raises on a value that is
  no boolean, and \<open>BooleanVar.get\<close> returns \<open>getboolean\<close> of the stored value, turning
  a \<open>TclError\<close> into \<open>ValueError\<close>.
\<close>

datatype var_class = StringVar | BooleanVar

record variable =
  var_class :: var_class
  contents :: pyval

definition new_variable :: "var_class \<Rightarrow> variable" where
  "new_variable c =
     (case c of
        StringVar \<Rightarrow> \<lparr>var_class = StringVar, contents = PStr []\<rparr>
      | BooleanVar \<Rightarrow> \<lparr>var_class = BooleanVar, contents = PBool False\<rparr>)"

definition var_set :: "toolkit \<Rightarrow> variable \<Rightarrow> pyval \<Rightarrow> error + variable" where
  "var_set tk x v =
     (case var_class x of
        StringVar \<Rightarrow> Inr (x\<lparr>contents := v\<rparr>)
      | BooleanVar \<Rightarrow>
          (case getboolean tk v of
             Inl e \<Rightarrow> Inl e
           | Inr b \<Rightarrow> Inr (x\<lparr>contents := PBool b\<rparr>)))"

definition var_get :: "toolkit \<Rightarrow> variable \<Rightarrow> error + pyval" where
  "var_get tk x =
     (case var_class x of
        StringVar \<Rightarrow>
          Inr (PStr (case contents x of PStr s \<Rightarrow> s | PNone \<Rightarrow> tcl_string tk PNone
                     | PBool b \<Rightarrow> tcl_string tk (PBool b)))
      | BooleanVar \<Rightarrow>
          (case getboolean tk (contents x) of
             Inl TclError \<Rightarrow> Inl ValueError
           | Inl e \<Rightarrow> Inl e
           | Inr b \<Rightarrow> Inr (PBool b)))"

section \<open>Field specifications and keyword arguments\<close>

text \<open>
  A field specification is a dict with the keys \<open>name\<close>, \<open>label\<close>, \<open>type\<close>, \<open>default\<close>
  and \<open>options\<close>, each of which may be missing; every other key is ignored by the code.
\<close>

record field =
  f_name :: "string option"
  f_label :: "string option"
  f_type :: "string option"
  f_default :: "pyval option"
  f_options :: "string list option"

text \<open>\<open>field.get("name")\<close>: \<open>None\<close> when the key is missing.\<close>

definition get_name :: "field \<Rightarrow> pyval" where
  "get_name x = (case f_name x of None \<Rightarrow> PNone | Some s \<Rightarrow> PStr s)"

text \<open>
  The keyword dictionary of \<open>Autobox\<close>, \<open>autobox\<close> and \<open>loginbox\<close>: one optional entry for
  each key one of them reads.
\<close>

record kwargs =
  kw_title_string :: "string option"
  kw_header_string :: "string option"
  kw_fields :: "field list option"
  kw_padding :: "int option"
  kw_error_message :: "string option"
  kw_theme :: "string option"
  kw_ok_label :: "string option"
  kw_additional_fields :: "field list option"
  kw_default_username :: "string option"
  kw_title :: "string option"

section \<open>Widgets and the dialog\<close>

datatype callback = Cmd_ok_clicked | Cmd_cancel_clicked

text \<open>
  A widget refers to its variable by the key under which the variable is stored in
  \<open>self.data\<close>. The arguments are: \<open>Label text font_size style\<close>,
  \<open>Entry textvariable show\<close>, \<open>Checkbutton variable\<close>,
  \<open>Combobox textvariable values state\<close> and \<open>Button text command\<close>.
\<close>

datatype widget =
    Label pyval "nat option" "string option"
  | Entry pyval "string option"
  | Checkbutton pyval
  | Combobox pyval "string list" string
  | Button string callback

type_synonym placement = "(nat \<times> nat) \<times> widget"

record dialog =
  title_string :: string
  header_string :: string
  fields' :: "field list"
  padding :: int
  error_message :: "string option"
  theme :: "string option"
  ok_label :: string
  data :: "(pyval \<times> variable) list"
  widgets :: "(pyval \<times> widget) list"
  grid :: "placement list"
  ok_button :: widget
  cancel_button :: widget
  bindings :: "(string \<times> callback) list"

section \<open>Autobox.__init__\<close>

definition variable_types :: "(string \<times> var_class) list" where
  "variable_types =
     [(''text'', StringVar), (''hidden_text'', StringVar),
      (''checkbox'', BooleanVar), (''select'', StringVar)]"

text \<open>\<open>if self.theme in s.theme_names(): s.theme_use(self.theme)\<close>\<close>

definition apply_theme :: "toolkit \<Rightarrow> string option \<Rightarrow> toolkit" where
  "apply_theme s th =
     (case th of
        None \<Rightarrow> s
      | Some t \<Rightarrow> if t \<in> set (theme_names s) then s\<lparr>theme_in_use := t\<rparr> else s)"

text \<open>
  The body of the first loop for one field: the variable class is looked up under the
  field's type (\<open>text\<close> when the key is missing), instantiated, and set to the field's
  default (the empty string when the key is missing).
\<close>

definition make_variable :: "toolkit \<Rightarrow> field \<Rightarrow> error + variable" where
  "make_variable tk field =
     (case map_of variable_types (case f_type field of None \<Rightarrow> ''text'' | Some t \<Rightarrow> t) of
        None \<Rightarrow> Inl KeyError
      | Some c \<Rightarrow>
          var_set tk (new_variable c) (case f_default field of None \<Rightarrow> PStr [] | Some v \<Rightarrow> v))"

fun create_variables ::
  "toolkit \<Rightarrow> field list \<Rightarrow> (pyval \<times> variable) list \<Rightarrow> error + (pyval \<times> variable) list" where
  "create_variables tk [] dat = Inr dat"
| "create_variables tk (field # rest) dat =
     (case make_variable tk field of
        Inl e \<Rightarrow> Inl e
      | Inr x \<Rightarrow> create_variables tk rest (AList.update (get_name field) x dat))"

text \<open>The widget chosen for a field in the second loop.\<close>

definition field_widget :: "field \<Rightarrow> widget" where
  "field_widget field =
     (let fn = get_name field;
          ft = (case f_type field of None \<Rightarrow> ''text'' | Some t \<Rightarrow> t)
      in if ft = ''select'' then
           Combobox fn (case f_options field of None \<Rightarrow> [] | Some os \<Rightarrow> os) ''readonly''
         else if ft = ''checkbox'' then Checkbutton fn
         else if ft = ''hidden_text'' then Entry fn (Some ''*'')
         else Entry fn None)"

text \<open>
  The second loop, over \<open>enumerate(self.fields)\<close>. It updates \<open>self.widgets\<close> and places
  a label in column 0 and the widget in column 1 of row \<open>n + 2\<close>. Reading
  \<open>self.data[fn]\<close> raises \<open>KeyError\<close> when the key is not there.
\<close>

fun build_rows ::
  "(pyval \<times> variable) list \<Rightarrow> (nat \<times> field) list \<Rightarrow> (pyval \<times> widget) list \<times> placement list
     \<Rightarrow> error + (pyval \<times> widget) list \<times> placement list" where
  "build_rows dat [] (ws, g) = Inr (ws, g)"
| "build_rows dat ((n, field) # rest) (ws, g) =
     (let fn = get_name field;
          label = (case f_label field of None \<Rightarrow> fn | Some l \<Rightarrow> PStr l);
          rownum = n + 2
      in case map_of dat fn of
           None \<Rightarrow> Inl KeyError
         | Some _ \<Rightarrow>
             build_rows dat rest
               (AList.update fn (field_widget field) ws,
                g @ [((rownum, 0), Label label None None), ((rownum, 1), field_widget field)]))"

definition Autobox_init :: "toolkit \<Rightarrow> kwargs \<Rightarrow> toolkit \<times> (error + dialog)" where
  "Autobox_init tk kwargs =
     (let title_string0 = (case kw_title_string kwargs of None \<Rightarrow> [] | Some t \<Rightarrow> t);
          header_string0 = (case kw_header_string kwargs of None \<Rightarrow> [] | Some h \<Rightarrow> h);
          fields0 = (case kw_fields kwargs of None \<Rightarrow> [] | Some fs \<Rightarrow> fs);
          padding0 = (case kw_padding kwargs of None \<Rightarrow> 5 | Some p \<Rightarrow> p);
          error_message0 = kw_error_message kwargs;
          theme0 = kw_theme kwargs;
          ok_label0 = (case kw_ok_label kwargs of None \<Rightarrow> ''OK'' | Some l \<Rightarrow> l);
          s = apply_theme tk theme0;
          fields1 = filter (\<lambda>x. truthy (get_name x)) fields0
      in case create_variables s fields1 [] of
           Inl e \<Rightarrow> (s, Inl e)
         | Inr dat \<Rightarrow>
             (let g0 = [((0, 0), Label (PStr header_string0) (Some 14) None)] @
                       (case error_message0 of
                          None \<Rightarrow> []
                        | Some m \<Rightarrow>
                            if m \<noteq> [] then [((1, 0), Label (PStr m) None (Some ''Error.TLabel''))]
                            else [])
              in case build_rows dat (enumerate 0 fields1) ([], g0) of
                   Inl e \<Rightarrow> (s, Inl e)
                 | Inr (ws, g) \<Rightarrow>
                     (s, Inr \<lparr>title_string = title_string0,
                              header_string = header_string0,
                              fields' = fields1,
                              padding = padding0,
                              error_message = error_message0,
                              theme = theme0,
                              ok_label = ok_label0,
                              data = dat,
                              widgets = ws,
                              grid = g @ [((998, 0), Label PNone None None),
                                          ((999, 0), Button ok_label0 Cmd_ok_clicked),
                                          ((999, 1), Button ''Cancel'' Cmd_cancel_clicked)],
                              ok_button = Button ok_label0 Cmd_ok_clicked,
                              cancel_button = Button ''Cancel'' Cmd_cancel_clicked,
                              bindings = [(''<Return>'', Cmd_ok_clicked),
                                          (''<Escape>'', Cmd_cancel_clicked)]\<rparr>)))"

section \<open>The two callbacks\<close>

text \<open>
  \<open>ok_clicked\<close> replaces \<open>self.data\<close> by the dict of the values read from the variables,
  in the order of the dict, and quits; the first \<open>get\<close> that raises ends it.
  \<open>cancel_clicked\<close> replaces \<open>self.data\<close> by the empty dict and quits. Both are modelled
  by the new value of \<open>self.data\<close>.
\<close>

fun items_get :: "toolkit \<Rightarrow> (pyval \<times> variable) list \<Rightarrow> error + (pyval \<times> pyval) list" where
  "items_get tk [] = Inr []"
| "items_get tk ((key, var) # rest) =
     (case var_get tk var of
        Inl e \<Rightarrow> Inl e
      | Inr v \<Rightarrow> (case items_get tk rest of Inl e \<Rightarrow> Inl e | Inr r \<Rightarrow> Inr ((key, v) # r)))"

definition ok_clicked :: "toolkit \<Rightarrow> dialog \<Rightarrow> error + (pyval \<times> pyval) list" where
  "ok_clicked tk d = items_get tk (data d)"

definition cancel_clicked :: "dialog \<Rightarrow> (pyval \<times> pyval) list" where
  "cancel_clicked d = []"

section \<open>The event loop\<close>

text \<open>
  What the user can do to the open dialog: press one of the two buttons, press a key
  that may have a binding, type a text into the entry of a row, toggle the checkbutton of
  a row, or choose the i-th value of the combobox of a row. A widget writes to the Tcl
  variable it is bound to without going through \<open>set\<close>.
\<close>

datatype event =
    Click_ok_button
  | Click_cancel_button
  | KeyPress string
  | Type_text nat string
  | Toggle nat
  | Choose nat nat

datatype step = Continue dialog | Quit "(pyval \<times> pyval) list"

definition write_var :: "pyval \<Rightarrow> pyval \<Rightarrow> dialog \<Rightarrow> dialog" where
  "write_var key v d =
     d\<lparr>data := map (\<lambda>(k, x). if k = key then (k, x\<lparr>contents := v\<rparr>) else (k, x)) (data d)\<rparr>"

text \<open>A checkbutton is on when its variable holds the on-value, \<open>1\<close>.\<close>

definition is_on :: "pyval \<Rightarrow> bool" where
  "is_on v = (case v of PBool b \<Rightarrow> b | PStr s \<Rightarrow> s = ''1'' | PNone \<Rightarrow> False)"

text \<open>
  An exception raised inside a Tk callback is reported by Tk and does not leave the
  event loop: if \<open>ok_clicked\<close> raises, \<open>self.data\<close> is unchanged, \<open>quit\<close> is not reached
  and the dialog stays open.
\<close>

definition invoke :: "toolkit \<Rightarrow> dialog \<Rightarrow> callback \<Rightarrow> step" where
  "invoke tk d c =
     (case c of
        Cmd_ok_clicked \<Rightarrow> (case ok_clicked tk d of Inl e \<Rightarrow> Continue d | Inr r \<Rightarrow> Quit r)
      | Cmd_cancel_clicked \<Rightarrow> Quit (cancel_clicked d))"

definition press :: "toolkit \<Rightarrow> dialog \<Rightarrow> widget \<Rightarrow> step" where
  "press tk d w = (case w of Button t c \<Rightarrow> invoke tk d c | _ \<Rightarrow> Continue d)"

definition handle_event :: "toolkit \<Rightarrow> dialog \<Rightarrow> event \<Rightarrow> step" where
  "handle_event tk d e =
     (case e of
        Click_ok_button \<Rightarrow> press tk d (ok_button d)
      | Click_cancel_button \<Rightarrow> press tk d (cancel_button d)
      | KeyPress k \<Rightarrow>
          (case map_of (bindings d) k of None \<Rightarrow> Continue d | Some c \<Rightarrow> invoke tk d c)
      | Type_text row s \<Rightarrow>
          (case map_of (grid d) (row, 1) of
             Some (Entry key sh) \<Rightarrow> Continue (write_var key (PStr s) d)
           | _ \<Rightarrow> Continue d)
      | Toggle row \<Rightarrow>
          (case map_of (grid d) (row, 1) of
             Some (Checkbutton key) \<Rightarrow>
               (case map_of (data d) key of
                  None \<Rightarrow> Continue d
                | Some x \<Rightarrow> Continue (write_var key (PBool (\<not> is_on (contents x))) d))
           | _ \<Rightarrow> Continue d)
      | Choose row i \<Rightarrow>
          (case map_of (grid d) (row, 1) of
             Some (Combobox key vs st) \<Rightarrow>
               if i < length vs then Continue (write_var key (PStr (vs ! i)) d) else Continue d
           | _ \<Rightarrow> Continue d))"

text \<open>The dialog after a list of events, or the result with which the loop was left.\<close>

fun run :: "toolkit \<Rightarrow> dialog \<Rightarrow> event list \<Rightarrow> step" where
  "run tk d [] = Continue d"
| "run tk d (e # es) =
     (case handle_event tk d e of Quit r \<Rightarrow> Quit r | Continue d' \<Rightarrow> run tk d' es)"

text \<open>
  \<open>mainloop\<close> returns once a callback has called \<open>quit\<close>; on a list of events that never
  does, it does not return (\<open>None\<close>). Its value is \<open>self.data\<close> as the callback left it.
\<close>

definition mainloop :: "toolkit \<Rightarrow> dialog \<Rightarrow> event list \<Rightarrow> (pyval \<times> pyval) list option" where
  "mainloop tk d es = (case run tk d es of Quit r \<Rightarrow> Some r | Continue d' \<Rightarrow> None)"

section \<open>The wrapper functions\<close>

definition autobox ::
  "toolkit \<Rightarrow> kwargs \<Rightarrow> event list \<Rightarrow> toolkit \<times> (error + (pyval \<times> pyval) list option)" where
  "autobox tk kwargs es =
     (case Autobox_init tk kwargs of
        (s, Inl e) \<Rightarrow> (s, Inl e)
      | (s, Inr ab) \<Rightarrow> (s, Inr (mainloop s ab es)))"

text \<open>
  \<open>loginbox\<close> pops \<open>additional_fields\<close> and \<open>default_username\<close> from its keyword
  dictionary when they are there and true, and only reads \<open>ok_label\<close> and \<open>title\<close>. The
  call \<open>autobox(fields=fields, ok_label=ok_label, title_string=title, **kwargs)\<close> raises
  \<open>TypeError\<close> when the dictionary still holds one of the three keys given explicitly.
\<close>

definition default_fields :: "string \<Rightarrow> field list" where
  "default_fields default_username =
     [\<lparr>f_name = Some ''username'', f_label = Some ''Username: '', f_type = Some ''text'',
       f_default = Some (PStr default_username), f_options = None\<rparr>,
      \<lparr>f_name = Some ''password'', f_label = Some ''Password: '', f_type = Some ''hidden_text'',
       f_default = None, f_options = None\<rparr>]"

definition loginbox ::
  "toolkit \<Rightarrow> kwargs \<Rightarrow> event list \<Rightarrow> toolkit \<times> (error + (pyval \<times> pyval) list option)" where
  "loginbox tk kwargs es =
     (let (additional_fields, kwargs1) =
            (case kw_additional_fields kwargs of
               Some (x # xs) \<Rightarrow> (x # xs, kwargs\<lparr>kw_additional_fields := None\<rparr>)
             | _ \<Rightarrow> ([], kwargs));
          ok_label0 = (case kw_ok_label kwargs1 of None \<Rightarrow> ''Log In'' | Some l \<Rightarrow> l);
          (default_username, kwargs2) =
            (case kw_default_username kwargs1 of
               Some (c # cs) \<Rightarrow> (c # cs, kwargs1\<lparr>kw_default_username := None\<rparr>)
             | _ \<Rightarrow> ([], kwargs1));
          title0 = (case kw_title kwargs2 of None \<Rightarrow> ''Log In'' | Some t \<Rightarrow> t);
          fields0 = default_fields default_username @ additional_fields
      in if kw_fields kwargs2 \<noteq> None \<or> kw_ok_label kwargs2 \<noteq> None
            \<or> kw_title_string kwargs2 \<noteq> None
         then (tk, Inl TypeError)
         else autobox tk
                (kwargs2\<lparr>kw_fields := Some fields0, kw_ok_label := Some ok_label0,
                         kw_title_string := Some title0\<rparr>) es)"

text \<open>
  A toolkit on which the model can be evaluated: the themes of a stock ttk, the texts
  Tcl gives to booleans and to \<open>None\<close>, and the boolean words of Tcl.
\<close>

definition stock_toolkit :: toolkit where
  "stock_toolkit =
     \<lparr>theme_names = [''clam'', ''alt'', ''default'', ''classic''],
      theme_in_use = ''default'',
      tcl_string = (\<lambda>v. case v of PNone \<Rightarrow> ''None'' | PBool b \<Rightarrow> (if b then ''1'' else ''0'')
                          | PStr s \<Rightarrow> s),
      tcl_getboolean = map_of [(''1'', True), (''0'', False), (''true'', True),
                               (''false'', False), (''yes'', True), (''no'', False),
                               (''on'', True), (''off'', False)]\<rparr>"

text \<open>The empty keyword dictionary.\<close>

definition no_kwargs :: kwargs where
  "no_kwargs =
     \<lparr>kw_title_string = None, kw_header_string = None, kw_fields = None, kw_padding = None,
      kw_error_message = None, kw_theme = None, kw_ok_label = None,
      kw_additional_fields = None, kw_default_username = None, kw_title = None\<rparr>"

text \<open>
  Two concrete calls: a dialog with a text field \<open>username\<close> preset to \<open>bob\<close> and a
  checkbox \<open>active\<close> preset to true, and the call of \<open>loginbox\<close> made under
  \<open>__main__\<close> (its \<open>error_message\<close> is \<open>None\<close> on the first round).
\<close>

definition scenario_kwargs :: kwargs where
  "scenario_kwargs =
     no_kwargs\<lparr>kw_fields := Some
       [\<lparr>f_name = Some ''username'', f_label = None, f_type = Some ''text'',
         f_default = Some (PStr ''bob''), f_options = None\<rparr>,
        \<lparr>f_name = Some ''active'', f_label = None, f_type = Some ''checkbox'',
         f_default = Some (PBool True), f_options = None\<rparr>]\<rparr>"

text \<open>The additional fields of the call under \<open>__main__\<close>.\<close>

definition demo_fields :: "field list" where
  "demo_fields =
     [\<lparr>f_name = Some ''domain'', f_label = Some ''Login Domain: '', f_type = Some ''select'',
       f_default = Some (PStr ''Local''), f_options = Some [''Local'', ''US.gov'', ''RU.gov'']\<rparr>,
      \<lparr>f_name = Some ''readonly'', f_label = Some ''Readonly access?'',
       f_type = Some ''checkbox'', f_default = Some (PBool False), f_options = None\<rparr>]"

definition main_kwargs :: kwargs where
  "main_kwargs =
     no_kwargs\<lparr>kw_header_string := Some ''Log in to secure server'',
       kw_title_string := Some ''Login'',
       kw_default_username := Some ''SomeUser'',
       kw_theme := Some ''alt'',
       kw_additional_fields := Some demo_fields\<rparr>"

text \<open>The same call without the \<open>title_string\<close> keyword.\<close>

definition login_kwargs :: kwargs where
  "login_kwargs = main_kwargs\<lparr>kw_title_string := None\<rparr>"

section \<open>Notions used in the statements\<close>

text \<open>The events that edit a value, as opposed to those that may close the dialog.\<close>

fun is_edit :: "event \<Rightarrow> bool" where
  "is_edit (Type_text row s) = True"
| "is_edit (Toggle row) = True"
| "is_edit (Choose row i) = True"
| "is_edit e = False"

text \<open>The widgets that take input, as opposed to labels and buttons.\<close>

fun is_input :: "widget \<Rightarrow> bool" where
  "is_input (Entry key sh) = True"
| "is_input (Checkbutton key) = True"
| "is_input (Combobox key vs st) = True"
| "is_input w = False"

text \<open>Two states of a dialog that differ at most in what its variables hold.\<close>

definition same_form :: "dialog \<Rightarrow> dialog \<Rightarrow> bool" where
  "same_form d d' \<longleftrightarrow>
     fields' d' = fields' d \<and> grid d' = grid d \<and> ok_button d' = ok_button d \<and>
     cancel_button d' = cancel_button d \<and> bindings d' = bindings d \<and>
     map fst (data d') = map fst (data d) \<and>
     map (var_class \<circ> snd) (data d') = map (var_class \<circ> snd) (data d)"

text \<open>A variable whose \<open>get\<close> cannot raise.\<close>

definition readable :: "variable \<Rightarrow> bool" where
  "readable x \<longleftrightarrow> var_class x = StringVar \<or> (\<exists>b. contents x = PBool b)"

text \<open>
  The two placements the second loop makes for the field at position \<open>n\<close>, and the
  values a field offers for selection.
\<close>

definition field_row :: "nat \<times> field \<Rightarrow> placement list" where
  "field_row p =
     [((fst p + 2, 0),
       Label (case f_label (snd p) of None \<Rightarrow> get_name (snd p) | Some l \<Rightarrow> PStr l) None None),
      ((fst p + 2, 1), field_widget (snd p))]"

definition options_of :: "field \<Rightarrow> string list" where
  "options_of f = (case f_options f of None \<Rightarrow> [] | Some os \<Rightarrow> os)"

text \<open>
  The state of the variable of a field \<open>f\<close> in a dialog \<open>d\<close> that was built as \<open>ab\<close>:
  the variable has the class of the field's type, a boolean variable holds a boolean, and
  the variable of a select field holds what it held in \<open>ab\<close> or one of the field's
  options.
\<close>

definition cell_ok :: "dialog \<Rightarrow> dialog \<Rightarrow> field \<Rightarrow> bool" where
  "cell_ok ab d f \<longleftrightarrow>
     (\<exists>x x0. map_of (data d) (get_name f) = Some x \<and> map_of (data ab) (get_name f) = Some x0 \<and>
        (if f_type f = Some ''checkbox''
         then var_class x = BooleanVar \<and> (\<exists>b. contents x = PBool b)
         else var_class x = StringVar) \<and>
        (f_type f = Some ''select'' \<longrightarrow>
           contents x = contents x0 \<or> (\<exists>t\<in>set (options_of f). contents x = PStr t)))"

text \<open>
  Fields for concrete inputs: a text field with a name and a default, a select field with
  a name and options and no default, a checkbox with a name and no default.
\<close>

definition text_field :: "string \<Rightarrow> string \<Rightarrow> field" where
  "text_field n d =
     \<lparr>f_name = Some n, f_label = None, f_type = Some ''text'', f_default = Some (PStr d),
      f_options = None\<rparr>"

definition select_field :: "string \<Rightarrow> string list \<Rightarrow> field" where
  "select_field n os =
     \<lparr>f_name = Some n, f_label = None, f_type = Some ''select'', f_default = None,
      f_options = Some os\<rparr>"

definition checkbox_field :: "string \<Rightarrow> field" where
  "checkbox_field n =
     \<lparr>f_name = Some n, f_label = None, f_type = Some ''checkbox'', f_default = None,
      f_options = None\<rparr>"

text \<open>
  Two more calls: a form with one field of each type, and the first scenario with a
  field that has a label and no name put between its two fields.
\<close>

definition form_kwargs :: kwargs where
  "form_kwargs = no_kwargs\<lparr>kw_fields := Some (default_fields ''SomeUser'' @ demo_fields)\<rparr>"

definition orphan_kwargs :: kwargs where
  "orphan_kwargs =
     no_kwargs\<lparr>kw_fields := Some
       [text_field ''username'' ''bob'',
        \<lparr>f_name = None, f_label = Some ''Orphan'', f_type = None, f_default = None,
         f_options = None\<rparr>,
        (checkbox_field ''active'')\<lparr>f_default := Some (PBool True)\<rparr>]\<rparr>"

text \<open>A checkbox and a text field that bear the same name.\<close>

definition clash_kwargs :: kwargs where
  "clash_kwargs =
     no_kwargs\<lparr>kw_fields := Some
       [(checkbox_field ''a'')\<lparr>f_default := Some (PBool True)\<rparr>, text_field ''a'' ''second'']\<rparr>"

section \<open>Evaluation and basic facts\<close>

lemmas eval_defs = Autobox_init_def Let_def no_kwargs_def stock_toolkit_def apply_theme_def
  get_name_def truthy_def make_variable_def variable_types_def new_variable_def var_set_def
  getboolean_def field_widget_def scenario_kwargs_def main_kwargs_def login_kwargs_def
  text_field_def select_field_def checkbox_field_def demo_fields_def form_kwargs_def
  orphan_kwargs_def default_fields_def clash_kwargs_def

lemmas run_defs = autobox_def mainloop_def handle_event_def press_def invoke_def ok_clicked_def
  cancel_clicked_def write_var_def is_on_def var_get_def

lemma write_var_same_form: "same_form d (write_var key v d)"
  by (auto simp: same_form_def write_var_def comp_def split: prod.splits)

lemma same_form_refl: "same_form d d"
  by (simp add: same_form_def)

lemma same_form_trans: "same_form a b \<Longrightarrow> same_form b c \<Longrightarrow> same_form a c"
  by (simp add: same_form_def)

lemma handle_edit_Continue:
  "is_edit e \<Longrightarrow> \<exists>d'. handle_event tk d e = Continue d' \<and> same_form d d'"
  by (cases e)
     (auto simp: handle_event_def write_var_same_form same_form_refl
           split: option.splits widget.splits)

lemma run_edits_Continue:
  "\<forall>e\<in>set es. is_edit e \<Longrightarrow> \<exists>d'. run tk d es = Continue d' \<and> same_form d d'"
proof (induction es arbitrary: d)
  case Nil
  then show ?case by (simp add: same_form_refl)
next
  case (Cons e es)
  then obtain d1 where h: "handle_event tk d e = Continue d1" "same_form d d1"
    using handle_edit_Continue [of e tk d] by auto
  from Cons obtain d2 where r: "run tk d1 es = Continue d2" "same_form d1 d2"
    by fastforce
  from h r show ?case by (auto intro: same_form_trans)
qed

lemma run_append:
  "run tk d (es @ es') = (case run tk d es of Quit r \<Rightarrow> Quit r | Continue d' \<Rightarrow> run tk d' es')"
  by (induction es arbitrary: d) (auto split: step.splits)

lemma Autobox_init_controls:
  assumes "Autobox_init tk kw = (s, Inr ab)"
  shows "ok_button ab = Button (ok_label ab) Cmd_ok_clicked"
    and "cancel_button ab = Button ''Cancel'' Cmd_cancel_clicked"
    and "bindings ab = [(''<Return>'', Cmd_ok_clicked), (''<Escape>'', Cmd_cancel_clicked)]"
  using assms
  by (auto simp: Autobox_init_def Let_def split: sum.splits prod.splits)

lemma scenario_init:
  "\<exists>ab. Autobox_init stock_toolkit scenario_kwargs = (stock_toolkit, Inr ab)"
  by (simp add: eval_defs)

section \<open>Cancelling\<close>

lemma cancel_event_quits:
  assumes "cancel_button d = Button t Cmd_cancel_clicked"
    and "map_of (bindings d) ''<Escape>'' = Some Cmd_cancel_clicked"
    and "c = Click_cancel_button \<or> c = KeyPress ''<Escape>''"
  shows "handle_event tk d c = Quit []"
  using assms by (auto simp: handle_event_def press_def invoke_def cancel_clicked_def)

text \<open>
  Claim C2. Whatever the keyword arguments with which the dialog was built and whatever
  edits the user made, pressing the Cancel button or the Escape key makes \<open>autobox\<close>
  return the empty mapping.
\<close>

theorem cancel_yields_empty:
  assumes "Autobox_init tk kw = (s, Inr ab)"
    and "\<forall>e\<in>set es. is_edit e"
    and "c = Click_cancel_button \<or> c = KeyPress ''<Escape>''"
  shows "autobox tk kw (es @ [c]) = (s, Inr (Some []))"
proof -
  obtain d where d: "run s ab es = Continue d" "same_form ab d"
    using run_edits_Continue [OF assms(2)] by blast
  have "cancel_button d = Button ''Cancel'' Cmd_cancel_clicked"
    and "map_of (bindings d) ''<Escape>'' = Some Cmd_cancel_clicked"
    using d(2) Autobox_init_controls [OF assms(1)] by (simp_all add: same_form_def)
  then have "handle_event s d c = Quit []"
    using assms(3) by (rule cancel_event_quits)
  then have "run s ab (es @ [c]) = Quit []"
    using d(1) by (simp add: run_append)
  then show ?thesis
    using assms(1) by (simp add: autobox_def mainloop_def)
qed

theorem cancel_yields_empty_witness:
  "(\<exists>ab. Autobox_init stock_toolkit scenario_kwargs = (stock_toolkit, Inr ab)) \<and>
   list_all is_edit [Type_text 2 ''alice'', Toggle 3] \<and>
   autobox stock_toolkit scenario_kwargs ([Type_text 2 ''alice'', Toggle 3] @ [KeyPress ''<Escape>''])
     = (stock_toolkit, Inr (Some []))"
proof -
  obtain ab where i: "Autobox_init stock_toolkit scenario_kwargs = (stock_toolkit, Inr ab)"
    using scenario_init by blast
  have e: "\<forall>e\<in>set [Type_text 2 ''alice'', Toggle 3]. is_edit e" by simp
  show ?thesis
    using i cancel_yields_empty [OF i e, of "KeyPress ''<Escape>''"] by auto
qed

section \<open>loginbox\<close>

text \<open>
  Claim C9. A call of \<open>loginbox\<close> with the keyword \<open>ok_label\<close> or \<open>title_string\<close> raises
  \<open>TypeError\<close>: the key stays in the keyword dictionary and is passed to \<open>autobox\<close> a
  second time. No dialog is built and the toolkit is left as it was.
\<close>

theorem loginbox_duplicate_keyword:
  assumes "kw_ok_label kwargs \<noteq> None \<or> kw_title_string kwargs \<noteq> None"
  shows "loginbox tk kwargs es = (tk, Inl TypeError)"
  using assms
  by (auto simp: loginbox_def Let_def split: option.splits list.splits)

theorem loginbox_duplicate_keyword_witness:
  "kw_title_string main_kwargs = Some ''Login'' \<and>
   loginbox stock_toolkit main_kwargs [Click_ok_button] = (stock_toolkit, Inl TypeError)"
proof -
  have t: "kw_title_string main_kwargs = Some ''Login''"
    by (simp add: main_kwargs_def no_kwargs_def)
  then have h: "kw_ok_label main_kwargs \<noteq> None \<or> kw_title_string main_kwargs \<noteq> None"
    by simp
  show ?thesis
    using t loginbox_duplicate_keyword [OF h] by simp
qed

text \<open>
  Claim C8. The call of \<open>loginbox\<close> made under \<open>__main__\<close> does not reach
  \<open>autobox\<close>: it passes \<open>title_string\<close>, which \<open>loginbox\<close> leaves in the keyword
  dictionary and gives a second time, so the call raises \<open>TypeError\<close> whatever the
  toolkit and whatever the user would do, and returns no result mapping.
\<close>

theorem loginbox_main_call_raises:
  "loginbox tk main_kwargs es = (tk, Inl TypeError)"
  by (simp add: loginbox_def Let_def main_kwargs_def no_kwargs_def demo_fields_def)

theorem loginbox_main_call_raises_witness:
  "loginbox stock_toolkit main_kwargs [Type_text 3 ''Password'', KeyPress ''<Return>''] =
     (stock_toolkit, Inl TypeError)"
  by (rule loginbox_main_call_raises)

text \<open>
  What holds of the delegation: when the keyword dictionary holds none of \<open>fields\<close>,
  \<open>ok_label\<close> and \<open>title_string\<close>, \<open>loginbox\<close> returns what \<open>autobox\<close> returns for
  the field list that starts with a \<open>username\<close> field of type \<open>text\<close> and a
  \<open>password\<close> field of type \<open>hidden_text\<close>, in this order, followed by the caller's
  additional fields.
\<close>

lemma loginbox_prepends_and_delegates:
  assumes "kw_fields kwargs = None" and "kw_ok_label kwargs = None"
    and "kw_title_string kwargs = None"
  shows "loginbox tk kwargs es =
         autobox tk
           (kwargs\<lparr>kw_additional_fields :=
                      (case kw_additional_fields kwargs of Some (x # xs) \<Rightarrow> None | a \<Rightarrow> a),
                    kw_default_username :=
                      (case kw_default_username kwargs of Some (c # cs) \<Rightarrow> None | u \<Rightarrow> u),
                    kw_fields := Some
                      (\<lparr>f_name = Some ''username'', f_label = Some ''Username: '',
                        f_type = Some ''text'',
                        f_default = Some (PStr (case kw_default_username kwargs of
                                                  None \<Rightarrow> [] | Some u \<Rightarrow> u)),
                        f_options = None\<rparr> #
                       \<lparr>f_name = Some ''password'', f_label = Some ''Password: '',
                        f_type = Some ''hidden_text'', f_default = None, f_options = None\<rparr> #
                       (case kw_additional_fields kwargs of None \<Rightarrow> [] | Some fs \<Rightarrow> fs)),
                    kw_ok_label := Some ''Log In'',
                    kw_title_string := Some (case kw_title kwargs of
                                               None \<Rightarrow> ''Log In'' | Some t \<Rightarrow> t)\<rparr>) es"
  using assms
  by (cases kwargs)
     (auto simp: loginbox_def Let_def default_fields_def split: option.splits list.splits)

lemma loginbox_prepends_and_delegates_example:
  "kw_fields login_kwargs = None \<and> kw_ok_label login_kwargs = None \<and>
   kw_title_string login_kwargs = None \<and>
   loginbox stock_toolkit login_kwargs [Type_text 3 ''Password'', KeyPress ''<Return>''] =
     (stock_toolkit\<lparr>theme_in_use := ''alt''\<rparr>,
      Inr (Some [(PStr ''username'', PStr ''SomeUser''), (PStr ''password'', PStr ''Password''),
                 (PStr ''domain'', PStr ''Local''), (PStr ''readonly'', PBool False)]))"
proof -
  have h: "kw_fields login_kwargs = None" "kw_ok_label login_kwargs = None"
    "kw_title_string login_kwargs = None"
    by (simp_all add: login_kwargs_def main_kwargs_def no_kwargs_def)
  show ?thesis
    unfolding loginbox_prepends_and_delegates [OF h]
    by (simp add: login_kwargs_def eval_defs run_defs)
qed

section \<open>The theme\<close>

lemma apply_theme_conversions:
  "tcl_string (apply_theme tk th) = tcl_string tk"
  "tcl_getboolean (apply_theme tk th) = tcl_getboolean tk"
  "theme_names (apply_theme tk th) = theme_names tk"
  by (simp_all add: apply_theme_def split: option.splits)

lemma getboolean_cong:
  "tcl_getboolean s = tcl_getboolean tk \<Longrightarrow> getboolean s v = getboolean tk v"
  by (cases v) (simp_all add: getboolean_def)

lemma make_variable_cong:
  "tcl_getboolean s = tcl_getboolean tk \<Longrightarrow> make_variable s f = make_variable tk f"
  by (auto simp: make_variable_def var_set_def getboolean_cong [of s tk]
           split: option.splits var_class.splits)

lemma create_variables_cong:
  "tcl_getboolean s = tcl_getboolean tk \<Longrightarrow> create_variables s fs dat = create_variables tk fs dat"
  by (induction fs arbitrary: dat)
     (auto simp: make_variable_cong [of s tk] split: sum.splits)

lemma Autobox_init_theme: "fst (Autobox_init tk kw) = apply_theme tk (kw_theme kw)"
  by (simp add: Autobox_init_def Let_def split: sum.splits prod.splits)

lemma Autobox_init_unknown_theme:
  assumes "t \<notin> set (theme_names tk)"
  shows "Autobox_init tk (kw\<lparr>kw_theme := Some t\<rparr>) =
         (tk, map_sum id (\<lambda>d. d\<lparr>theme := Some t\<rparr>) (snd (Autobox_init tk (kw\<lparr>kw_theme := None\<rparr>))))"
  using assms
  by (simp add: Autobox_init_def Let_def apply_theme_def split: sum.splits prod.splits)

text \<open>
  Claim C5. The constructor leaves the toolkit with the theme it asked for when the
  style registry knows the name, and as it was otherwise. A name the registry does not
  know raises nothing: the constructor then does exactly what it does without a theme,
  and only records the name in the dialog.
\<close>

theorem theme_applied_only_if_known:
  "fst (Autobox_init tk kw) =
     (case kw_theme kw of
        None \<Rightarrow> tk
      | Some t \<Rightarrow> if t \<in> set (theme_names tk) then tk\<lparr>theme_in_use := t\<rparr> else tk) \<and>
   (t \<notin> set (theme_names tk) \<longrightarrow>
      Autobox_init tk (kw\<lparr>kw_theme := Some t\<rparr>) =
        (tk, map_sum id (\<lambda>d. d\<lparr>theme := Some t\<rparr>)
               (snd (Autobox_init tk (kw\<lparr>kw_theme := None\<rparr>)))))"
  using Autobox_init_theme [of tk kw] Autobox_init_unknown_theme [of t tk kw]
  by (simp add: apply_theme_def)

theorem theme_applied_only_if_known_witness:
  "''bogus'' \<notin> set (theme_names stock_toolkit) \<and>
   fst (Autobox_init stock_toolkit (scenario_kwargs\<lparr>kw_theme := Some ''bogus''\<rparr>)) = stock_toolkit \<and>
   Autobox_init stock_toolkit (scenario_kwargs\<lparr>kw_theme := Some ''bogus''\<rparr>) =
     (stock_toolkit, map_sum id (\<lambda>d. d\<lparr>theme := Some ''bogus''\<rparr>)
        (snd (Autobox_init stock_toolkit (scenario_kwargs\<lparr>kw_theme := None\<rparr>)))) \<and>
   fst (Autobox_init stock_toolkit (scenario_kwargs\<lparr>kw_theme := Some ''alt''\<rparr>)) =
     stock_toolkit\<lparr>theme_in_use := ''alt''\<rparr>"
proof -
  have n: "''bogus'' \<notin> set (theme_names stock_toolkit)"
    by (simp add: stock_toolkit_def)
  have a: "''alt'' \<in> set (theme_names stock_toolkit)"
    by (simp add: stock_toolkit_def)
  show ?thesis
    using n a
      theme_applied_only_if_known [of stock_toolkit "scenario_kwargs\<lparr>kw_theme := Some ''bogus''\<rparr>" "''bogus''"]
      theme_applied_only_if_known [of stock_toolkit "scenario_kwargs\<lparr>kw_theme := Some ''alt''\<rparr>" "''bogus''"]
    by simp
qed

section \<open>The variables of the form\<close>

lemma create_variables_append:
  "create_variables tk (xs @ ys) dat =
     (case create_variables tk xs dat of Inl e \<Rightarrow> Inl e | Inr d \<Rightarrow> create_variables tk ys d)"
  by (induction xs arbitrary: dat) (auto split: sum.splits)

lemma make_variable_KeyError:
  "f_type f = Some t \<Longrightarrow> t \<notin> {''text'', ''hidden_text'', ''checkbox'', ''select''} \<Longrightarrow>
   make_variable tk f = Inl KeyError"
  by (simp add: make_variable_def variable_types_def)

lemma create_variables_all_ok:
  "\<forall>x\<in>set xs. \<exists>v. make_variable tk x = Inr v \<Longrightarrow> \<exists>d. create_variables tk xs dat = Inr d"
  by (induction xs arbitrary: dat) auto

text \<open>
  Claim C10. A retained field whose \<open>type\<close> is present and is none of \<open>text\<close>,
  \<open>hidden_text\<close>, \<open>checkbox\<close> and \<open>select\<close> makes the constructor raise \<open>KeyError\<close>
  (the fields before it having got their variables); a field without the key \<open>type\<close>
  gets the variable and the widget of a \<open>text\<close> field.
\<close>

theorem unknown_type_raises_KeyError:
  assumes "kw_fields kw = Some (pre @ f # post)"
    and "truthy (get_name f)"
    and "f_type f = Some t"
    and "t \<notin> {''text'', ''hidden_text'', ''checkbox'', ''select''}"
    and "\<forall>x\<in>set pre. truthy (get_name x) \<longrightarrow> (\<exists>v. make_variable tk x = Inr v)"
  shows "Autobox_init tk kw = (apply_theme tk (kw_theme kw), Inl KeyError) \<and>
         make_variable tk (f\<lparr>f_type := None\<rparr>) = make_variable tk (f\<lparr>f_type := Some ''text''\<rparr>) \<and>
         field_widget (f\<lparr>f_type := None\<rparr>) = field_widget (f\<lparr>f_type := Some ''text''\<rparr>)"
proof -
  let ?s = "apply_theme tk (kw_theme kw)"
  let ?keep = "filter (\<lambda>x. truthy (get_name x))"
  have c: "create_variables ?s xs dat = create_variables tk xs dat" for xs dat
    by (rule create_variables_cong) (simp add: apply_theme_conversions)
  have "\<forall>x\<in>set (?keep pre). \<exists>v. make_variable tk x = Inr v"
    using assms(5) by auto
  then obtain d where d: "create_variables tk (?keep pre) [] = Inr d"
    using create_variables_all_ok by blast
  have "?keep (pre @ f # post) = ?keep pre @ f # ?keep post"
    using assms(2) by simp
  then have "create_variables tk (?keep (pre @ f # post)) [] = Inl KeyError"
    using d make_variable_KeyError [OF assms(3,4)] by (simp add: create_variables_append)
  then have "Autobox_init tk kw = (?s, Inl KeyError)"
    using assms(1) by (simp add: Autobox_init_def Let_def c)
  moreover have "make_variable tk (f\<lparr>f_type := None\<rparr>) = make_variable tk (f\<lparr>f_type := Some ''text''\<rparr>)"
    by (simp add: make_variable_def variable_types_def)
  moreover have "field_widget (f\<lparr>f_type := None\<rparr>) = field_widget (f\<lparr>f_type := Some ''text''\<rparr>)"
    by (simp add: field_widget_def get_name_def)
  ultimately show ?thesis by simp
qed

theorem unknown_type_raises_KeyError_witness:
  "truthy (get_name (text_field ''age'' ''7''\<lparr>f_type := Some ''number''\<rparr>)) \<and>
   ''number'' \<notin> {''text'', ''hidden_text'', ''checkbox'', ''select''} \<and>
   list_all (\<lambda>x. \<exists>v. make_variable stock_toolkit x = Inr v) [text_field ''username'' ''bob''] \<and>
   Autobox_init stock_toolkit
     (no_kwargs\<lparr>kw_fields := Some ([text_field ''username'' ''bob''] @
        (text_field ''age'' ''7''\<lparr>f_type := Some ''number''\<rparr>) # [])\<rparr>) =
     (stock_toolkit, Inl KeyError)"
proof -
  let ?f = "text_field ''age'' ''7''\<lparr>f_type := Some ''number''\<rparr>"
  let ?kw = "no_kwargs\<lparr>kw_fields := Some ([text_field ''username'' ''bob''] @ ?f # [])\<rparr>"
  have 1: "kw_fields ?kw = Some ([text_field ''username'' ''bob''] @ ?f # [])" by simp
  have 2: "truthy (get_name ?f)" by (simp add: text_field_def get_name_def truthy_def)
  have 3: "f_type ?f = Some ''number''" by simp
  have 4: "''number'' \<notin> {''text'', ''hidden_text'', ''checkbox'', ''select''}" by simp
  have 5: "\<forall>x\<in>set [text_field ''username'' ''bob'']. truthy (get_name x) \<longrightarrow>
             (\<exists>v. make_variable stock_toolkit x = Inr v)"
    by (simp add: text_field_def eval_defs)
  have 6: "apply_theme stock_toolkit (kw_theme ?kw) = stock_toolkit"
    by (simp add: no_kwargs_def apply_theme_def)
  have 7: "list_all (\<lambda>x. \<exists>v. make_variable stock_toolkit x = Inr v) [text_field ''username'' ''bob'']"
    by (simp add: text_field_def eval_defs)
  show ?thesis
    using 2 4 6 7 unknown_type_raises_KeyError [OF 1 2 3 4 5] by simp
qed

lemma set_update_subset:
  "p \<in> set (AList.update k v al) \<Longrightarrow> p = (k, v) \<or> p \<in> set al"
  by (induction al) (auto split: if_splits)

lemma create_variables_keys:
  "create_variables tk fs dat = Inr dat' \<Longrightarrow> fst ` set dat' = fst ` set dat \<union> get_name ` set fs"
proof (induction fs arbitrary: dat)
  case Nil
  then show ?case by simp
next
  case (Cons f fs)
  then obtain x where x: "make_variable tk f = Inr x"
    and r: "create_variables tk fs (AList.update (get_name f) x dat) = Inr dat'"
    by (auto split: sum.splits)
  from Cons.IH [OF r] show ?case by (auto simp: dom_update)
qed

lemma create_variables_distinct:
  "create_variables tk fs dat = Inr dat' \<Longrightarrow> distinct (map fst dat) \<Longrightarrow> distinct (map fst dat')"
  by (induction fs arbitrary: dat) (auto split: sum.splits simp: distinct_update)

lemma create_variables_other:
  "create_variables tk fs dat = Inr dat' \<Longrightarrow> k \<notin> get_name ` set fs \<Longrightarrow>
   map_of dat' k = map_of dat k"
  by (induction fs arbitrary: dat) (auto split: sum.splits simp: update_conv')

lemma create_variables_last:
  assumes "create_variables tk (pre @ f # post) dat = Inr dat'"
    and "get_name f \<notin> get_name ` set post"
  shows "\<exists>x. make_variable tk f = Inr x \<and> map_of dat' (get_name f) = Some x"
proof -
  from assms(1) obtain d1 where d1: "create_variables tk pre dat = Inr d1"
    and r: "create_variables tk (f # post) d1 = Inr dat'"
    by (auto simp: create_variables_append split: sum.splits)
  from r obtain x where x: "make_variable tk f = Inr x"
    and p: "create_variables tk post (AList.update (get_name f) x d1) = Inr dat'"
    by (auto split: sum.splits)
  from create_variables_other [OF p assms(2)] have "map_of dat' (get_name f) = Some x"
    by (simp add: update_conv')
  with x show ?thesis by blast
qed

lemma create_variables_pred:
  assumes "create_variables tk fs dat = Inr dat'"
    and "\<forall>p\<in>set dat. P (snd p)"
    and "\<And>f x. f \<in> set fs \<Longrightarrow> make_variable tk f = Inr x \<Longrightarrow> P x"
  shows "\<forall>p\<in>set dat'. P (snd p)"
  using assms
proof (induction fs arbitrary: dat)
  case Nil
  then show ?case by simp
next
  case (Cons f fs)
  then obtain x where x: "make_variable tk f = Inr x"
    and r: "create_variables tk fs (AList.update (get_name f) x dat) = Inr dat'"
    by (auto split: sum.splits)
  have "P x" using Cons.prems(3) [of f x] x by simp
  then have u: "\<forall>p\<in>set (AList.update (get_name f) x dat). P (snd p)"
    using Cons.prems(2) by (auto dest: set_update_subset)
  show ?case
    by (rule Cons.IH [OF r u]) (use Cons.prems(3) in auto)
qed

text \<open>What a freshly made variable is, and that it can be read.\<close>

lemma make_variable_Inr:
  assumes "make_variable tk f = Inr x"
  shows "(f_type f = Some ''checkbox'' \<and> var_class x = BooleanVar \<and>
          (\<exists>b. contents x = PBool b \<and>
               getboolean tk (case f_default f of None \<Rightarrow> PStr [] | Some v \<Rightarrow> v) = Inr b)) \<or>
         (f_type f \<in> {None, Some ''text'', Some ''hidden_text'', Some ''select''} \<and>
          var_class x = StringVar \<and>
          contents x = (case f_default f of None \<Rightarrow> PStr [] | Some v \<Rightarrow> v))"
  using assms
  by (auto simp: make_variable_def variable_types_def new_variable_def var_set_def
           split: option.splits if_splits sum.splits)

lemma readable_get: "readable x \<Longrightarrow> \<exists>v. var_get tk x = Inr v"
  by (auto simp: readable_def var_get_def getboolean_def split: var_class.splits)

lemma make_variable_readable: "make_variable tk f = Inr x \<Longrightarrow> readable x"
  using make_variable_Inr [of tk f x] by (auto simp: readable_def)

lemma items_get_keys: "items_get tk dat = Inr r \<Longrightarrow> map fst r = map fst dat"
  by (induction dat arbitrary: r) (auto split: sum.splits)

lemma items_get_lookup:
  "items_get tk dat = Inr r \<Longrightarrow> map_of dat k = Some x \<Longrightarrow>
   \<exists>v. var_get tk x = Inr v \<and> map_of r k = Some v"
  by (induction dat arbitrary: r) (auto split: sum.splits if_splits)

lemma items_get_total:
  "\<forall>p\<in>set dat. \<exists>v. var_get tk (snd p) = Inr v \<Longrightarrow> \<exists>r. items_get tk dat = Inr r"
  by (induction dat) (auto split: sum.splits)

lemma Autobox_init_parts:
  assumes "Autobox_init tk kw = (s, Inr ab)"
  shows "s = apply_theme tk (kw_theme kw)"
    and "fields' ab = filter (\<lambda>x. truthy (get_name x)) (case kw_fields kw of None \<Rightarrow> [] | Some fs \<Rightarrow> fs)"
    and "create_variables s (fields' ab) [] = Inr (data ab)"
  using assms
  by (auto simp: Autobox_init_def Let_def split: sum.splits prod.splits)

lemma Autobox_init_readable:
  assumes "Autobox_init tk kw = (s, Inr ab)"
  shows "\<forall>p\<in>set (data ab). readable (snd p)"
  by (rule create_variables_pred [OF Autobox_init_parts(3) [OF assms]])
     (auto intro: make_variable_readable)

lemma Autobox_init_commit:
  assumes "Autobox_init tk kw = (s, Inr ab)"
  shows "\<exists>r. ok_clicked s ab = Inr r"
  unfolding ok_clicked_def
  using Autobox_init_readable [OF assms] by (auto intro!: items_get_total readable_get)

lemma Autobox_init_keys:
  assumes "Autobox_init tk kw = (s, Inr ab)"
  shows "fst ` set (data ab) = get_name ` set (fields' ab)"
  using create_variables_keys [OF Autobox_init_parts(3) [OF assms]] by simp







section \<open>The rendered form\<close>

lemma build_rows_grid:
  "build_rows dat nfs (ws, g) = Inr (ws', g') \<Longrightarrow> g' = g @ concat (map field_row nfs)"
proof (induction nfs arbitrary: ws g)
  case Nil
  then show ?case by simp
next
  case (Cons p nfs)
  obtain n f where p: "p = (n, f)" by (cases p)
  from Cons.prems obtain x where "map_of dat (get_name f) = Some x"
    and r: "build_rows dat nfs
              (AList.update (get_name f) (field_widget f) ws,
               g @ [((n + 2, 0), Label (case f_label f of None \<Rightarrow> get_name f | Some l \<Rightarrow> PStr l) None None),
                    ((n + 2, 1), field_widget f)]) = Inr (ws', g')"
    by (auto simp: p Let_def split: option.splits)
  from Cons.IH [OF r] show ?case by (simp add: p field_row_def cong: option.case_cong)
qed

lemma is_input_field_widget: "is_input (field_widget f)"
  by (simp add: field_widget_def Let_def)

lemma filter_input_rows:
  "filter (is_input \<circ> snd) (concat (map field_row nfs)) =
   map (\<lambda>p. ((fst p + 2, 1), field_widget (snd p))) nfs"
  by (induction nfs) (simp_all add: field_row_def is_input_field_widget)

lemma map_of_rows:
  "map_of (concat (map field_row (enumerate n fs))) (r, 1) =
     (if n + 2 \<le> r \<and> r < n + 2 + length fs then Some (field_widget (fs ! (r - n - 2))) else None)"
proof (induction fs arbitrary: n)
  case Nil
  then show ?case by simp
next
  case (Cons f fs)
  show ?case
  proof (cases "r = n + 2")
    case True
    then show ?thesis by (simp add: field_row_def)
  next
    case False
    then show ?thesis
      using Cons.IH [of "Suc n"] by (auto simp: field_row_def nth_Cons')
  qed
qed

lemma Autobox_init_grid:
  assumes "Autobox_init tk kw = (s, Inr ab)"
  shows "\<exists>hs. grid ab = hs @ concat (map field_row (enumerate 0 (fields' ab))) @
                  [((998, 0), Label PNone None None), ((999, 0), ok_button ab),
                   ((999, 1), cancel_button ab)] \<and>
              (\<forall>p\<in>set hs. snd (fst p) = 0 \<and> \<not> is_input (snd p))"
  using assms
  by (auto simp: Autobox_init_def Let_def split: sum.splits prod.splits option.splits
           dest!: build_rows_grid)

lemma Autobox_init_grid_full:
  assumes "Autobox_init tk kw = (s, Inr ab)"
  shows "grid ab =
           ((0, 0), Label (PStr (header_string ab)) (Some 14) None) #
           (case error_message ab of
              None \<Rightarrow> []
            | Some m \<Rightarrow>
                if m \<noteq> [] then [((1, 0), Label (PStr m) None (Some ''Error.TLabel''))] else []) @
           concat (map field_row (enumerate 0 (fields' ab))) @
           [((998, 0), Label PNone None None),
            ((999, 0), Button (ok_label ab) Cmd_ok_clicked),
            ((999, 1), Button ''Cancel'' Cmd_cancel_clicked)]"
  using assms
  by (auto simp: Autobox_init_def Let_def split: sum.splits prod.splits option.splits
           dest!: build_rows_grid)

lemma build_rows_widgets:
  "build_rows dat nfs (ws, g) = Inr (ws', g') \<Longrightarrow>
   fst ` set ws' = fst ` set ws \<union> get_name ` snd ` set nfs"
proof (induction nfs arbitrary: ws g)
  case Nil
  then show ?case by simp
next
  case (Cons p nfs)
  obtain n f where p: "p = (n, f)" by (cases p)
  from Cons.prems obtain x where "map_of dat (get_name f) = Some x"
    and r: "build_rows dat nfs
              (AList.update (get_name f) (field_widget f) ws,
               g @ [((n + 2, 0), Label (case f_label f of None \<Rightarrow> get_name f | Some l \<Rightarrow> PStr l) None None),
                    ((n + 2, 1), field_widget f)]) = Inr (ws', g')"
    by (auto simp: p Let_def split: option.splits)
  from Cons.IH [OF r] show ?case by (auto simp: p dom_update)
qed

lemma Autobox_init_widgets:
  assumes "Autobox_init tk kw = (s, Inr ab)"
  shows "fst ` set (widgets ab) = get_name ` set (fields' ab)"
proof -
  obtain dat g0 g where b: "build_rows dat (enumerate 0 (fields' ab)) ([], g0) = Inr (widgets ab, g)"
    using assms
    by (auto simp: Autobox_init_def Let_def split: sum.splits prod.splits)
  have "snd ` set (enumerate 0 (fields' ab)) = set (fields' ab)"
    by (metis list.set_map map_snd_enumerate)
  then show ?thesis
    using build_rows_widgets [OF b] by simp
qed

lemma Autobox_init_inputs:
  assumes "Autobox_init tk kw = (s, Inr ab)"
  shows "filter (is_input \<circ> snd) (grid ab) =
         map (\<lambda>p. ((fst p + 2, 1), field_widget (snd p))) (enumerate 0 (fields' ab))"
proof -
  obtain hs where g: "grid ab = hs @ concat (map field_row (enumerate 0 (fields' ab))) @
                  [((998, 0), Label PNone None None), ((999, 0), ok_button ab),
                   ((999, 1), cancel_button ab)]"
    and h: "\<forall>p\<in>set hs. snd (fst p) = 0 \<and> \<not> is_input (snd p)"
    using Autobox_init_grid [OF assms] by blast
  have "filter (is_input \<circ> snd) hs = []"
    using h by (auto simp: filter_empty_conv)
  then show ?thesis
    using Autobox_init_controls(1,2) [OF assms]
    by (simp add: g filter_input_rows)
qed

lemma map_of_header:
  "\<forall>p\<in>set hs. snd (fst p) = 0 \<and> \<not> is_input (snd p) \<Longrightarrow> map_of hs (r, Suc 0) = None"
  by (induction hs) auto

lemma Autobox_init_map_of_grid:
  assumes "Autobox_init tk kw = (s, Inr ab)"
  shows "map_of (grid ab) (r, 1) =
           (if 2 \<le> r \<and> r < 2 + length (fields' ab) then Some (field_widget (fields' ab ! (r - 2)))
            else if r = 999 then Some (cancel_button ab) else None)"
proof -
  obtain hs where g: "grid ab = hs @ concat (map field_row (enumerate 0 (fields' ab))) @
                  [((998, 0), Label PNone None None), ((999, 0), ok_button ab),
                   ((999, 1), cancel_button ab)]"
    and h: "\<forall>p\<in>set hs. snd (fst p) = 0 \<and> \<not> is_input (snd p)"
    using Autobox_init_grid [OF assms] by blast
  show ?thesis
    using map_of_rows [of 0 "fields' ab" r] map_of_header [OF h, of r]
    by (simp add: g map_add_def)
qed

text \<open>
  Claim C7, as stated, fails in its last part: when a checkbox and a later text field
  bear the same name, the checkbutton of the first is bound to the string variable of the
  second.
\<close>

theorem checkbutton_bound_to_string_variable:
  "\<exists>ab. Autobox_init stock_toolkit clash_kwargs = (stock_toolkit, Inr ab) \<and>
        f_type (fields' ab ! 0) = Some ''checkbox'' \<and>
        map_of (grid ab) (0 + 2, 1) = Some (Checkbutton (PStr ''a'')) \<and>
        map_of (data ab) (PStr ''a'') = Some \<lparr>var_class = StringVar, contents = PStr ''second''\<rparr>"
  by (simp add: clash_kwargs_def eval_defs)

text \<open>
  Claim C7, amended. The widget placed in the row of a retained field is given by the
  field's type: a read-only combobox over the field's options for \<open>select\<close>, a
  checkbutton for \<open>checkbox\<close>, an entry showing \<open>*\<close> for \<open>hidden_text\<close>, and a plain
  entry otherwise, in particular when the type is missing. The widget is bound to the
  variable stored under the field's name, which, when the names of the retained fields
  are distinct, is a boolean variable for a checkbox and a string variable for the other
  types.
\<close>

theorem widget_determined_by_kind:
  assumes "Autobox_init tk kw = (s, Inr ab)"
    and "i < length (fields' ab)"
    and "f = fields' ab ! i"
  shows "map_of (grid ab) (i + 2, 1) =
           Some (if f_type f = Some ''select'' then
                   Combobox (get_name f) (case f_options f of None \<Rightarrow> [] | Some os \<Rightarrow> os)
                     ''readonly''
                 else if f_type f = Some ''checkbox'' then Checkbutton (get_name f)
                 else if f_type f = Some ''hidden_text'' then Entry (get_name f) (Some ''*'')
                 else Entry (get_name f) None) \<and>
         (f_type f = None \<longrightarrow> map_of (grid ab) (i + 2, 1) = Some (Entry (get_name f) None)) \<and>
         get_name f \<in> fst ` set (data ab) \<and>
         (distinct (map get_name (fields' ab)) \<longrightarrow>
            (\<exists>x. map_of (data ab) (get_name f) = Some x \<and>
                 var_class x = (if f_type f = Some ''checkbox'' then BooleanVar else StringVar)))"
proof -
  have g: "map_of (grid ab) (i + 2, 1) = Some (field_widget f)"
    using Autobox_init_map_of_grid [OF assms(1), of "i + 2"] assms(2,3) by simp
  have w: "field_widget f =
           (if f_type f = Some ''select'' then
              Combobox (get_name f) (case f_options f of None \<Rightarrow> [] | Some os \<Rightarrow> os) ''readonly''
            else if f_type f = Some ''checkbox'' then Checkbutton (get_name f)
            else if f_type f = Some ''hidden_text'' then Entry (get_name f) (Some ''*'')
            else Entry (get_name f) None)"
    by (auto simp: field_widget_def Let_def split: option.splits)
  have k: "get_name f \<in> fst ` set (data ab)"
    using assms(2,3) by (simp add: Autobox_init_keys [OF assms(1)])
  have c: "\<exists>x. map_of (data ab) (get_name f) = Some x \<and>
               var_class x = (if f_type f = Some ''checkbox'' then BooleanVar else StringVar)"
    if dist: "distinct (map get_name (fields' ab))"
  proof -
    have sp: "fields' ab = take i (fields' ab) @ f # drop (Suc i) (fields' ab)"
      using assms(2,3) by (simp add: id_take_nth_drop)
    then have "distinct (map get_name (take i (fields' ab) @ f # drop (Suc i) (fields' ab)))"
      using dist by simp
    then have n: "get_name f \<notin> get_name ` set (drop (Suc i) (fields' ab))"
      by auto
    have cv: "create_variables s (take i (fields' ab) @ f # drop (Suc i) (fields' ab)) [] =
              Inr (data ab)"
      using Autobox_init_parts(3) [OF assms(1)] sp by simp
    obtain x where x: "make_variable s f = Inr x" "map_of (data ab) (get_name f) = Some x"
      using create_variables_last [OF cv n] by blast
    then show ?thesis
      using make_variable_Inr [OF x(1)] by auto
  qed
  from g w k c show ?thesis by auto
qed

lemma form_init:
  "\<exists>ab. Autobox_init stock_toolkit form_kwargs = (stock_toolkit, Inr ab) \<and>
        fields' ab = default_fields ''SomeUser'' @ demo_fields"
  by (simp add: eval_defs)

theorem widget_determined_by_kind_witness:
  "\<exists>ab. Autobox_init stock_toolkit form_kwargs = (stock_toolkit, Inr ab) \<and>
        3 < length (fields' ab) \<and> demo_fields ! 1 = fields' ab ! 3 \<and>
        distinct (map get_name (fields' ab)) \<and>
        map_of (grid ab) (3 + 2, 1) = Some (Checkbutton (PStr ''readonly'')) \<and>
        (\<exists>x. map_of (data ab) (PStr ''readonly'') = Some x \<and> var_class x = BooleanVar)"
proof -
  obtain ab where i: "Autobox_init stock_toolkit form_kwargs = (stock_toolkit, Inr ab)"
    and f: "fields' ab = default_fields ''SomeUser'' @ demo_fields"
    using form_init by blast
  have l: "3 < length (fields' ab)"
    by (simp add: f default_fields_def demo_fields_def)
  have n: "demo_fields ! 1 = fields' ab ! 3"
    by (simp add: f default_fields_def demo_fields_def)
  have d: "distinct (map get_name (fields' ab))"
    by (simp add: f default_fields_def demo_fields_def get_name_def)
  have t: "f_type (demo_fields ! 1) = Some ''checkbox''"
    "get_name (demo_fields ! 1) = PStr ''readonly''"
    by (simp_all add: demo_fields_def get_name_def)
  show ?thesis
    using i l n d widget_determined_by_kind [OF i l n] t by auto
qed

section \<open>Committing\<close>

lemma commit_event:
  assumes "ok_button d = Button t Cmd_ok_clicked"
    and "map_of (bindings d) ''<Return>'' = Some Cmd_ok_clicked"
    and "c = Click_ok_button \<or> c = KeyPress ''<Return>''"
  shows "handle_event tk d c = (case ok_clicked tk d of Inl e \<Rightarrow> Continue d | Inr r \<Rightarrow> Quit r)"
  using assms by (auto simp: handle_event_def press_def invoke_def)

lemma autobox_commit:
  assumes "Autobox_init tk kw = (s, Inr ab)"
    and "\<forall>e\<in>set es. is_edit e"
    and "c = Click_ok_button \<or> c = KeyPress ''<Return>''"
  shows "\<exists>d. run s ab es = Continue d \<and> same_form ab d \<and>
             autobox tk kw (es @ [c]) =
               (s, Inr (case ok_clicked s d of Inl e \<Rightarrow> None | Inr r \<Rightarrow> Some r))"
proof -
  obtain d where d: "run s ab es = Continue d" "same_form ab d"
    using run_edits_Continue [OF assms(2)] by blast
  have "ok_button d = Button (ok_label ab) Cmd_ok_clicked"
    and "map_of (bindings d) ''<Return>'' = Some Cmd_ok_clicked"
    using d(2) Autobox_init_controls [OF assms(1)] by (simp_all add: same_form_def)
  then have "handle_event s d c =
             (case ok_clicked s d of Inl e \<Rightarrow> Continue d | Inr r \<Rightarrow> Quit r)"
    using assms(3) by (rule commit_event)
  then have "autobox tk kw (es @ [c]) =
             (s, Inr (case ok_clicked s d of Inl e \<Rightarrow> None | Inr r \<Rightarrow> Some r))"
    using assms(1) d(1) by (simp add: autobox_def mainloop_def run_append split: sum.splits)
  with d show ?thesis by blast
qed

lemma truthy_get_name:
  "truthy (get_name x) = (case f_name x of None \<Rightarrow> False | Some n \<Rightarrow> n \<noteq> [])"
  by (simp add: truthy_def get_name_def split: option.splits)

text \<open>
  Claim C1. The dialog keeps exactly the field specifications whose name is there and
  not empty, in their order. The whole form is the header, the error label if there is a
  message, one label and one widget per field kept, in rows 2, 3, ..., the spacer and
  the two buttons; the variables and the widgets are stored under the names of the
  fields kept. Committing at once returns a mapping, and whenever the user commits after
  some edits, the keys of the mapping returned are exactly the names of the fields kept.
  A specification without a name is in none of these.
\<close>

theorem result_keys_are_retained_names:
  assumes "Autobox_init tk kw = (s, Inr ab)"
  shows "fields' ab =
           filter (\<lambda>x. case f_name x of None \<Rightarrow> False | Some n \<Rightarrow> n \<noteq> [])
             (case kw_fields kw of None \<Rightarrow> [] | Some fs \<Rightarrow> fs) \<and>
         grid ab =
           ((0, 0), Label (PStr (header_string ab)) (Some 14) None) #
           (case error_message ab of
              None \<Rightarrow> []
            | Some m \<Rightarrow>
                if m \<noteq> [] then [((1, 0), Label (PStr m) None (Some ''Error.TLabel''))] else []) @
           concat (map (\<lambda>p. [((fst p + 2, 0),
                                Label (case f_label (snd p) of
                                         None \<Rightarrow> get_name (snd p) | Some l \<Rightarrow> PStr l) None None),
                               ((fst p + 2, 1), field_widget (snd p))])
                       (enumerate 0 (fields' ab))) @
           [((998, 0), Label PNone None None),
            ((999, 0), Button (ok_label ab) Cmd_ok_clicked),
            ((999, 1), Button ''Cancel'' Cmd_cancel_clicked)] \<and>
         filter (is_input \<circ> snd) (grid ab) =
           map (\<lambda>p. ((fst p + 2, 1), field_widget (snd p))) (enumerate 0 (fields' ab)) \<and>
         fst ` set (widgets ab) = get_name ` set (fields' ab) \<and>
         fst ` set (data ab) = get_name ` set (fields' ab) \<and>
         (\<exists>r. autobox tk kw [Click_ok_button] = (s, Inr (Some r))) \<and>
         ((\<forall>e\<in>set es. is_edit e) \<and> (c = Click_ok_button \<or> c = KeyPress ''<Return>'') \<and>
          autobox tk kw (es @ [c]) = (s, Inr (Some r)) \<longrightarrow>
            fst ` set r = get_name ` set (fields' ab))"
proof -
  have 1: "fields' ab =
           filter (\<lambda>x. case f_name x of None \<Rightarrow> False | Some n \<Rightarrow> n \<noteq> [])
             (case kw_fields kw of None \<Rightarrow> [] | Some fs \<Rightarrow> fs)"
    using Autobox_init_parts(2) [OF assms] by (simp add: truthy_get_name)
  have fr: "field_row = (\<lambda>p. [((fst p + 2, 0),
                                Label (case f_label (snd p) of
                                         None \<Rightarrow> get_name (snd p) | Some l \<Rightarrow> PStr l) None None),
                               ((fst p + 2, 1), field_widget (snd p))])"
    by (simp add: fun_eq_iff field_row_def)
  note 2 = Autobox_init_grid_full [OF assms, unfolded fr]
  have 3: "filter (is_input \<circ> snd) (grid ab) =
           map (\<lambda>p. ((fst p + 2, 1), field_widget (snd p))) (enumerate 0 (fields' ab))"
    by (rule Autobox_init_inputs [OF assms])
  note 4 = Autobox_init_widgets [OF assms]
  note 5 = Autobox_init_keys [OF assms]
  have 6: "\<exists>r. autobox tk kw [Click_ok_button] = (s, Inr (Some r))"
    using autobox_commit [OF assms, of "[]" Click_ok_button] Autobox_init_commit [OF assms]
    by auto
  have 7: "fst ` set r = get_name ` set (fields' ab)"
    if e: "\<forall>e\<in>set es. is_edit e" and c: "c = Click_ok_button \<or> c = KeyPress ''<Return>''"
      and a: "autobox tk kw (es @ [c]) = (s, Inr (Some r))"
  proof -
    obtain d where d: "same_form ab d"
      "autobox tk kw (es @ [c]) = (s, Inr (case ok_clicked s d of Inl e \<Rightarrow> None | Inr r \<Rightarrow> Some r))"
      using autobox_commit [OF assms e c] by blast
    from d(2) a have "ok_clicked s d = Inr r"
      by (simp split: sum.splits)
    then have "map fst r = map fst (data d)"
      by (simp add: ok_clicked_def items_get_keys)
    then have "map fst r = map fst (data ab)"
      using d(1) by (simp add: same_form_def)
    then have "fst ` set r = fst ` set (data ab)"
      by (metis set_map)
    then show ?thesis
      by (simp add: Autobox_init_keys [OF assms])
  qed
  from 1 2 3 4 5 6 7 show ?thesis by blast
qed

theorem result_keys_are_retained_names_witness:
  "\<exists>ab. Autobox_init stock_toolkit orphan_kwargs = (stock_toolkit, Inr ab) \<and>
        fields' ab = [text_field ''username'' ''bob'',
                      (checkbox_field ''active'')\<lparr>f_default := Some (PBool True)\<rparr>] \<and>
        grid ab =
          [((0, 0), Label (PStr []) (Some 14) None),
           ((2, 0), Label (PStr ''username'') None None),
           ((2, 1), Entry (PStr ''username'') None),
           ((3, 0), Label (PStr ''active'') None None),
           ((3, 1), Checkbutton (PStr ''active'')),
           ((998, 0), Label PNone None None),
           ((999, 0), Button ''OK'' Cmd_ok_clicked),
           ((999, 1), Button ''Cancel'' Cmd_cancel_clicked)] \<and>
        list_all is_edit [Type_text 2 ''alice''] \<and>
        autobox stock_toolkit orphan_kwargs ([Type_text 2 ''alice''] @ [KeyPress ''<Return>'']) =
          (stock_toolkit, Inr (Some [(PStr ''username'', PStr ''alice''), (PStr ''active'', PBool True)])) \<and>
        fst ` set [(PStr ''username'', PStr ''alice''), (PStr ''active'', PBool True)] =
          get_name ` set (fields' ab)"
proof -
  let ?r = "[(PStr ''username'', PStr ''alice''), (PStr ''active'', PBool True)]"
  obtain ab where i: "Autobox_init stock_toolkit orphan_kwargs = (stock_toolkit, Inr ab)"
    by (simp add: eval_defs)
  have e: "\<forall>e\<in>set [Type_text 2 ''alice'']. is_edit e" by simp
  have a: "autobox stock_toolkit orphan_kwargs ([Type_text 2 ''alice''] @ [KeyPress ''<Return>'']) =
           (stock_toolkit, Inr (Some ?r))"
    by (simp add: eval_defs run_defs)
  note th = result_keys_are_retained_names [OF i, of "[Type_text 2 ''alice'']" "KeyPress ''<Return>''" ?r]
  have f: "fields' ab = [text_field ''username'' ''bob'',
                         (checkbox_field ''active'')\<lparr>f_default := Some (PBool True)\<rparr>]"
    using th by (simp add: orphan_kwargs_def no_kwargs_def text_field_def checkbox_field_def)
  have h: "header_string ab = []" "error_message ab = None" "ok_label ab = ''OK''"
    using i by (auto simp: eval_defs)
  have g: "grid ab =
          [((0, 0), Label (PStr []) (Some 14) None),
           ((2, 0), Label (PStr ''username'') None None),
           ((2, 1), Entry (PStr ''username'') None),
           ((3, 0), Label (PStr ''active'') None None),
           ((3, 1), Checkbutton (PStr ''active'')),
           ((998, 0), Label PNone None None),
           ((999, 0), Button ''OK'' Cmd_ok_clicked),
           ((999, 1), Button ''Cancel'' Cmd_cancel_clicked)]"
    using th unfolding f h
    by (simp add: text_field_def checkbox_field_def field_widget_def get_name_def)
  have k: "fst ` set ?r = get_name ` set (fields' ab)"
    using th e a by blast
  from i f g a k show ?thesis by simp
qed

section \<open>The committed values\<close>

lemma write_var_map_of:
  "map_of (data (write_var key v d)) k =
     (if k = key then map_option (\<lambda>x. x\<lparr>contents := v\<rparr>) (map_of (data d) k)
      else map_of (data d) k)"
proof -
  have "map_of (map (\<lambda>(k, x). if k = key then (k, x\<lparr>contents := v\<rparr>) else (k, x)) xs) k =
        (if k = key then map_option (\<lambda>x. x\<lparr>contents := v\<rparr>) (map_of xs k) else map_of xs k)"
    for xs :: "(pyval \<times> variable) list"
    by (induction xs) auto
  then show ?thesis by (simp add: write_var_def)
qed

lemma field_widget_Entry:
  "field_widget g = Entry key sh \<Longrightarrow>
   key = get_name g \<and> f_type g \<noteq> Some ''select'' \<and> f_type g \<noteq> Some ''checkbox''"
  by (auto simp: field_widget_def Let_def split: if_splits option.splits)

lemma field_widget_Checkbutton:
  "field_widget g = Checkbutton key \<Longrightarrow> key = get_name g \<and> f_type g = Some ''checkbox''"
  by (auto simp: field_widget_def Let_def split: if_splits option.splits)

lemma field_widget_Combobox:
  "field_widget g = Combobox key vs st \<Longrightarrow>
   key = get_name g \<and> f_type g = Some ''select'' \<and> vs = options_of g"
  by (auto simp: field_widget_def Let_def options_of_def split: if_splits option.splits)

lemma grid_input_widget:
  assumes "Autobox_init tk kw = (s, Inr ab)"
    and "map_of (grid ab) (row, 1) = Some w"
    and "is_input w"
  shows "\<exists>g\<in>set (fields' ab). w = field_widget g"
proof -
  have cb: "\<not> is_input (cancel_button ab)"
    by (simp add: Autobox_init_controls(2) [OF assms(1)])
  have "(2 \<le> row \<and> row < 2 + length (fields' ab) \<and> w = field_widget (fields' ab ! (row - 2))) \<or>
        w = cancel_button ab"
    using assms(2) unfolding Autobox_init_map_of_grid [OF assms(1)]
    by (auto split: if_splits)
  with cb assms(3) have "row - 2 < length (fields' ab) \<and> w = field_widget (fields' ab ! (row - 2))"
    by auto
  then show ?thesis
    using nth_mem by blast
qed

lemma distinct_names_eq:
  "distinct (map get_name fs) \<Longrightarrow> f \<in> set fs \<Longrightarrow> g \<in> set fs \<Longrightarrow>
   get_name f = get_name g \<Longrightarrow> f = g"
  by (auto simp: distinct_map dest: inj_onD)

lemma init_cell_ok:
  assumes "Autobox_init tk kw = (s, Inr ab)"
    and "distinct (map get_name (fields' ab))"
    and "f \<in> set (fields' ab)"
  shows "cell_ok ab ab f \<and>
         (\<exists>x0. make_variable s f = Inr x0 \<and> map_of (data ab) (get_name f) = Some x0)"
proof -
  obtain i where i: "i < length (fields' ab)" "f = fields' ab ! i"
    using assms(3) by (auto simp: in_set_conv_nth)
  have sp: "fields' ab = take i (fields' ab) @ f # drop (Suc i) (fields' ab)"
    using i by (simp add: id_take_nth_drop)
  then have "distinct (map get_name (take i (fields' ab) @ f # drop (Suc i) (fields' ab)))"
    using assms(2) by simp
  then have n: "get_name f \<notin> get_name ` set (drop (Suc i) (fields' ab))"
    by auto
  have cv: "create_variables s (take i (fields' ab) @ f # drop (Suc i) (fields' ab)) [] =
            Inr (data ab)"
    using Autobox_init_parts(3) [OF assms(1)] sp by simp
  obtain x where x: "make_variable s f = Inr x" "map_of (data ab) (get_name f) = Some x"
    using create_variables_last [OF cv n] by blast
  then show ?thesis
    using make_variable_Inr [OF x(1)] by (auto simp: cell_ok_def)
qed

lemma edit_preserves_cell_ok:
  assumes init: "Autobox_init tk kw = (s, Inr ab)"
    and dist: "distinct (map get_name (fields' ab))"
    and form: "same_form ab d"
    and ok: "\<forall>f\<in>set (fields' ab). cell_ok ab d f"
    and ed: "is_edit e"
    and step: "handle_event s d e = Continue d'"
    and f: "f \<in> set (fields' ab)"
  shows "cell_ok ab d' f"
proof -
  have grid: "grid d = grid ab"
    using form by (simp add: same_form_def)
  have cf: "cell_ok ab d f" using ok f by blast
  have keep: "cell_ok ab (write_var key v d) f" if "key \<noteq> get_name f" for key v
    using cf that by (simp add: cell_ok_def write_var_map_of)
  show ?thesis
  proof (cases e)
    case (Type_text row t)
    show ?thesis
    proof (cases "map_of (grid ab) (row, 1)")
      case None
      then show ?thesis using step cf by (simp add: Type_text handle_event_def grid)
    next
      case (Some w)
      show ?thesis
      proof (cases w)
        case (Entry key sh)
        then obtain g where g: "g \<in> set (fields' ab)" "field_widget g = Entry key sh"
          using grid_input_widget [OF init Some] by auto
        have d': "d' = write_var key (PStr t) d"
          using step Some by (simp add: Type_text handle_event_def grid Entry)
        show ?thesis
        proof (cases "key = get_name f")
          case True
          then have "f = g"
            using field_widget_Entry [OF g(2)] distinct_names_eq [OF dist f g(1)] by simp
          then show ?thesis
            using cf field_widget_Entry [OF g(2)] True
            by (auto simp: d' cell_ok_def write_var_map_of)
        next
          case False
          then show ?thesis by (simp add: d' keep)
        qed
      qed (use step cf Some in \<open>simp_all add: Type_text handle_event_def grid\<close>)
    qed
  next
    case (Toggle row)
    show ?thesis
    proof (cases "map_of (grid ab) (row, 1)")
      case None
      then show ?thesis using step cf by (simp add: Toggle handle_event_def grid)
    next
      case (Some w)
      show ?thesis
      proof (cases w)
        case (Checkbutton key)
        then obtain g where g: "g \<in> set (fields' ab)" "field_widget g = Checkbutton key"
          using grid_input_widget [OF init Some] by auto
        show ?thesis
        proof (cases "map_of (data d) key")
          case None
          then show ?thesis
            using step cf \<open>map_of (grid ab) (row, 1) = Some w\<close>
            by (simp add: Toggle handle_event_def grid Checkbutton)
        next
          case (Some x)
          have d': "d' = write_var key (PBool (\<not> is_on (contents x))) d"
            using step \<open>map_of (grid ab) (row, 1) = Some w\<close> Some
            by (simp add: Toggle handle_event_def grid Checkbutton)
          show ?thesis
          proof (cases "key = get_name f")
            case True
            then have "f = g"
              using field_widget_Checkbutton [OF g(2)] distinct_names_eq [OF dist f g(1)] by simp
            then show ?thesis
              using cf field_widget_Checkbutton [OF g(2)] True
              by (auto simp: d' cell_ok_def write_var_map_of)
          next
            case False
            then show ?thesis by (simp add: d' keep)
          qed
        qed
      qed (use step cf Some in \<open>simp_all add: Toggle handle_event_def grid\<close>)
    qed
  next
    case (Choose row i)
    show ?thesis
    proof (cases "map_of (grid ab) (row, 1)")
      case None
      then show ?thesis using step cf by (simp add: Choose handle_event_def grid)
    next
      case (Some w)
      show ?thesis
      proof (cases w)
        case (Combobox key vs st)
        then obtain g where g: "g \<in> set (fields' ab)" "field_widget g = Combobox key vs st"
          using grid_input_widget [OF init Some] by auto
        show ?thesis
        proof (cases "i < length vs")
          case False
          then show ?thesis
            using step cf Some by (simp add: Choose handle_event_def grid Combobox)
        next
          case True
          have d': "d' = write_var key (PStr (vs ! i)) d"
            using step Some True by (simp add: Choose handle_event_def grid Combobox)
          show ?thesis
          proof (cases "key = get_name f")
            case k: True
            then have "f = g"
              using field_widget_Combobox [OF g(2)] distinct_names_eq [OF dist f g(1)] by simp
            then show ?thesis
              using cf field_widget_Combobox [OF g(2)] k True
              by (auto simp: d' cell_ok_def write_var_map_of)
          next
            case False
            then show ?thesis by (simp add: d' keep)
          qed
        qed
      qed (use step cf Some in \<open>simp_all add: Choose handle_event_def grid\<close>)
    qed
  qed (use ed in simp_all)
qed

lemma run_edits_cell_ok:
  assumes "Autobox_init tk kw = (s, Inr ab)"
    and "distinct (map get_name (fields' ab))"
    and "\<forall>e\<in>set es. is_edit e"
    and "same_form ab d"
    and "\<forall>f\<in>set (fields' ab). cell_ok ab d f"
  shows "\<exists>d'. run s d es = Continue d' \<and> same_form ab d' \<and>
              (\<forall>f\<in>set (fields' ab). cell_ok ab d' f)"
  using assms(3-5)
proof (induction es arbitrary: d)
  case Nil
  then show ?case by simp
next
  case (Cons e es)
  then have e: "is_edit e" by simp
  obtain d1 where h: "handle_event s d e = Continue d1" "same_form d d1"
    using handle_edit_Continue [OF e] by blast
  have f1: "same_form ab d1"
    using Cons.prems(2) h(2) by (rule same_form_trans)
  have c1: "\<forall>f\<in>set (fields' ab). cell_ok ab d1 f"
    using edit_preserves_cell_ok [OF assms(1,2) Cons.prems(2,3) e h(1)] by blast
  obtain d2 where "run s d1 es = Continue d2" "same_form ab d2"
    "\<forall>f\<in>set (fields' ab). cell_ok ab d2 f"
    using Cons.IH [OF _ f1 c1] Cons.prems(1) by auto
  then show ?case using h(1) by simp
qed

lemma cells_readable:
  assumes "Autobox_init tk kw = (s, Inr ab)"
    and "same_form ab d"
    and "\<forall>f\<in>set (fields' ab). cell_ok ab d f"
  shows "\<forall>p\<in>set (data d). readable (snd p)"
proof
  fix p assume p: "p \<in> set (data d)"
  have keys: "map fst (data d) = map fst (data ab)"
    using assms(2) by (simp add: same_form_def)
  have dis: "distinct (map fst (data d))"
    using create_variables_distinct [OF Autobox_init_parts(3) [OF assms(1)]] keys by simp
  have "fst p \<in> fst ` set (data d)" using p by simp
  then have "fst p \<in> fst ` set (data ab)"
    using keys by (metis set_map)
  then obtain f where f: "f \<in> set (fields' ab)" "fst p = get_name f"
    using Autobox_init_keys [OF assms(1)] by auto
  have "map_of (data d) (fst p) = Some (snd p)"
    using dis p by simp
  then show "readable (snd p)"
    using assms(3) f by (auto simp: cell_ok_def readable_def split: if_splits)
qed

text \<open>
  Claim C3, as stated, fails: a select field without a default is committed with the
  empty string, which is not one of its options.
\<close>

theorem select_without_default_commits_empty:
  "autobox stock_toolkit (no_kwargs\<lparr>kw_fields := Some [select_field ''role'' [''A'', ''B'']]\<rparr>)
     [Click_ok_button] = (stock_toolkit, Inr (Some [(PStr ''role'', PStr [])])) \<and>
   [] \<notin> set [''A'', ''B'']"
  by (simp add: select_field_def eval_defs run_defs)

text \<open>
  Claim C3, amended. In a dialog whose field names are distinct, committing after any
  edits, by the OK button or the Return key, returns a mapping in which every checkbox
  field holds a boolean and every select field holds a string that is one of the field's
  options or the value its variable was seeded with.
\<close>

theorem committed_values_by_kind:
  assumes "Autobox_init tk kw = (s, Inr ab)"
    and "distinct (map get_name (fields' ab))"
    and "\<forall>e\<in>set es. is_edit e"
    and "c = Click_ok_button \<or> c = KeyPress ''<Return>''"
    and "f \<in> set (fields' ab)"
  shows "\<exists>r. autobox tk kw (es @ [c]) = (s, Inr (Some r)) \<and>
             (f_type f = Some ''checkbox'' \<longrightarrow> (\<exists>b. map_of r (get_name f) = Some (PBool b))) \<and>
             (f_type f = Some ''select'' \<longrightarrow>
                (\<exists>t. map_of r (get_name f) = Some (PStr t) \<and>
                     (t \<in> set (case f_options f of None \<Rightarrow> [] | Some os \<Rightarrow> os) \<or>
                      (\<exists>x0. make_variable s f = Inr x0 \<and> var_get s x0 = Inr (PStr t)))))"
proof -
  have i0: "\<forall>g\<in>set (fields' ab). cell_ok ab ab g"
    using init_cell_ok [OF assms(1,2)] by blast
  obtain d where d: "run s ab es = Continue d" "same_form ab d"
    "\<forall>g\<in>set (fields' ab). cell_ok ab d g"
    using run_edits_cell_ok [OF assms(1,2,3) same_form_refl i0] by blast
  obtain d2 where d2: "run s ab es = Continue d2"
    "autobox tk kw (es @ [c]) = (s, Inr (case ok_clicked s d2 of Inl e \<Rightarrow> None | Inr r \<Rightarrow> Some r))"
    using autobox_commit [OF assms(1,3,4)] by blast
  have "d2 = d" using d(1) d2(1) by simp
  obtain r where r: "items_get s (data d) = Inr r"
    using cells_readable [OF assms(1) d(2,3)] items_get_total [of "data d" s]
    by (auto dest: readable_get)
  then have a: "autobox tk kw (es @ [c]) = (s, Inr (Some r))"
    using d2(2) \<open>d2 = d\<close> by (simp add: ok_clicked_def)
  obtain x x0 where x: "map_of (data d) (get_name f) = Some x"
    "map_of (data ab) (get_name f) = Some x0"
    and cls: "if f_type f = Some ''checkbox''
              then var_class x = BooleanVar \<and> (\<exists>b. contents x = PBool b)
              else var_class x = StringVar"
    and sel: "f_type f = Some ''select'' \<longrightarrow>
              contents x = contents x0 \<or> (\<exists>t\<in>set (options_of f). contents x = PStr t)"
    using d(3) assms(5) by (auto simp: cell_ok_def)
  obtain v where v: "var_get s x = Inr v" "map_of r (get_name f) = Some v"
    using items_get_lookup [OF r x(1)] by blast
  obtain y0 where y0: "make_variable s f = Inr y0" "map_of (data ab) (get_name f) = Some y0"
    using init_cell_ok [OF assms(1,2,5)] by blast
  then have "y0 = x0" using x(2) by simp
  have cb: "\<exists>b. map_of r (get_name f) = Some (PBool b)" if "f_type f = Some ''checkbox''"
    using that cls v by (auto simp: var_get_def getboolean_def)
  have sl: "\<exists>t. map_of r (get_name f) = Some (PStr t) \<and>
               (t \<in> set (case f_options f of None \<Rightarrow> [] | Some os \<Rightarrow> os) \<or>
                (\<exists>x0. make_variable s f = Inr x0 \<and> var_get s x0 = Inr (PStr t)))"
    if t: "f_type f = Some ''select''"
  proof -
    have sv: "var_class x = StringVar" using cls t by simp
    have sv0: "var_class x0 = StringVar"
      using make_variable_Inr [OF y0(1)] t \<open>y0 = x0\<close> by auto
    from sel t consider "contents x = contents x0"
      | u where "u \<in> set (options_of f)" "contents x = PStr u" by blast
    then show ?thesis
    proof cases
      case 1
      then have "var_get s x0 = var_get s x"
        using sv sv0 by (simp add: var_get_def)
      then show ?thesis
        using v y0 \<open>y0 = x0\<close> sv by (auto simp: var_get_def)
    next
      case 2
      then have "v = PStr u" using v(1) sv by (simp add: var_get_def)
      then show ?thesis
        using v(2) 2(1) by (auto simp: options_of_def)
    qed
  qed
  from a cb sl show ?thesis by blast
qed

theorem committed_values_by_kind_witness:
  "\<exists>ab. Autobox_init stock_toolkit form_kwargs = (stock_toolkit, Inr ab) \<and>
        distinct (map get_name (fields' ab)) \<and>
        list_all is_edit [Choose 4 2, Toggle 5] \<and>
        demo_fields ! 0 \<in> set (fields' ab) \<and>
        f_type (demo_fields ! 0) = Some ''select'' \<and>
        autobox stock_toolkit form_kwargs ([Choose 4 2, Toggle 5] @ [KeyPress ''<Return>'']) =
          (stock_toolkit,
           Inr (Some [(PStr ''username'', PStr ''SomeUser''), (PStr ''password'', PStr []),
                      (PStr ''domain'', PStr ''RU.gov''), (PStr ''readonly'', PBool True)])) \<and>
        ''RU.gov'' \<in> set (case f_options (demo_fields ! 0) of None \<Rightarrow> [] | Some os \<Rightarrow> os)"
proof -
  obtain ab where i: "Autobox_init stock_toolkit form_kwargs = (stock_toolkit, Inr ab)"
    and f: "fields' ab = default_fields ''SomeUser'' @ demo_fields"
    using form_init by blast
  have d: "distinct (map get_name (fields' ab))"
    by (simp add: f default_fields_def demo_fields_def get_name_def)
  have e: "\<forall>e\<in>set [Choose 4 2, Toggle 5]. is_edit e" by simp
  have c: "KeyPress ''<Return>'' = Click_ok_button \<or> KeyPress ''<Return>'' = KeyPress ''<Return>''"
    by simp
  have m: "demo_fields ! 0 \<in> set (fields' ab)"
    by (simp add: f demo_fields_def)
  have t: "f_type (demo_fields ! 0) = Some ''select''"
    "get_name (demo_fields ! 0) = PStr ''domain''"
    "''RU.gov'' \<in> set (case f_options (demo_fields ! 0) of None \<Rightarrow> [] | Some os \<Rightarrow> os)"
    by (simp_all add: demo_fields_def get_name_def)
  have a: "autobox stock_toolkit form_kwargs ([Choose 4 2, Toggle 5] @ [KeyPress ''<Return>'']) =
           (stock_toolkit,
            Inr (Some [(PStr ''username'', PStr ''SomeUser''), (PStr ''password'', PStr []),
                       (PStr ''domain'', PStr ''RU.gov''), (PStr ''readonly'', PBool True)]))"
    by (simp add: eval_defs run_defs)
  have "\<exists>u. map_of [(PStr ''username'', PStr ''SomeUser''), (PStr ''password'', PStr []),
                     (PStr ''domain'', PStr ''RU.gov''), (PStr ''readonly'', PBool True)]
             (PStr ''domain'') = Some (PStr u)"
    using committed_values_by_kind [OF i d e c m] t a by auto
  with i d m t a show ?thesis by simp
qed

section \<open>Defaults\<close>

text \<open>
  Claim C4. A checkbox field without a default is not seeded with false: the
  constructor sets its boolean variable to the empty string, which raises \<open>TclError\<close>,
  and no dialog is built.
\<close>

theorem checkbox_without_default_raises:
  "Autobox_init stock_toolkit (no_kwargs\<lparr>kw_fields := Some [checkbox_field ''active'']\<rparr>) =
     (stock_toolkit, Inl TclError)"
  by (simp add: checkbox_field_def eval_defs)

text \<open>
  The same for every toolkit and every name, and what holds of the other defaults: a
  variable that could be made reads back the default of its field, the empty string
  when a field that is no checkbox has none.
\<close>

lemma checkbox_without_default_any_toolkit:
  "make_variable tk (checkbox_field n) = Inl TclError"
  by (simp add: checkbox_field_def make_variable_def variable_types_def new_variable_def
        var_set_def getboolean_def)

lemma seeded_default_returned:
  assumes "make_variable tk f = Inr x"
  shows "f_type f \<noteq> Some ''checkbox'' \<Longrightarrow> f_default f = None \<Longrightarrow> var_get tk x = Inr (PStr [])"
    and "f_type f \<noteq> Some ''checkbox'' \<Longrightarrow> f_default f = Some (PStr t) \<Longrightarrow>
         var_get tk x = Inr (PStr t)"
    and "f_type f = Some ''checkbox'' \<Longrightarrow> f_default f = Some (PBool b) \<Longrightarrow>
         var_get tk x = Inr (PBool b)"
  using make_variable_Inr [OF assms]
  by (auto simp: var_get_def getboolean_def)

end
